theory Spec2Isabelle
  imports Complex_Main "HOL-Library.AList"
begin

section \<open>Python primitives used by the trading modules\<close>

text \<open>
  Python floats are modelled as real numbers: every price, portfolio value and profit is a
  \<^typ>\<open>real\<close>, so the arithmetic below is exact and IEEE rounding is not part of the model.
  Python ints are \<^typ>\<open>int\<close>. A float division by zero raises \<open>ZeroDivisionError\<close> in
  Python; each place where the source can divide by zero is an explicit branch.
\<close>

definition py_int :: "real \<Rightarrow> int" where
  \<comment> \<open>\<open>int(x)\<close> on a float truncates towards zero.\<close>
  "py_int x = (if 0 \<le> x then \<lfloor>x\<rfloor> else \<lceil>x\<rceil>)"

definition upper_char :: "char \<Rightarrow> char" where
  "upper_char c =
     (case map_of (zip ''abcdefghijklmnopqrstuvwxyz'' ''ABCDEFGHIJKLMNOPQRSTUVWXYZ'') c of
        Some u \<Rightarrow> u
      | None \<Rightarrow> c)"

definition upper :: "string \<Rightarrow> string" where
  \<comment> \<open>\<open>str.upper()\<close> on ASCII symbols.\<close>
  "upper s = map upper_char s"

section \<open>config/settings.py\<close>

record config =
  LOT_SIZE :: "(string \<times> int) list"
  TRADING_MODE :: string
  TEST_QUANTITY :: int
  MAX_POSITIONS :: int
  MAX_DAILY_LOSS :: real
  MAX_POSITION_SIZE :: real
  POSITION_SIZE_PERCENT :: real
  STOP_LOSS_PERCENT :: real
  TARGET_PROFIT_PERCENT :: real
  MAX_ORDER_RETRY :: nat
  ORDER_TYPE :: string
  PRODUCT_TYPE :: string

definition settings :: config where
  \<comment> \<open>The values that config/settings.py ships.\<close>
  "settings =
     \<lparr> LOT_SIZE = [(''nifty'', 75), (''banknifty'', 35)],
       TRADING_MODE = ''live'',
       TEST_QUANTITY = 1,
       MAX_POSITIONS = 10,
       MAX_DAILY_LOSS = 50000,
       MAX_POSITION_SIZE = 100000,
       POSITION_SIZE_PERCENT = 2 / 100,
       STOP_LOSS_PERCENT = 5 / 100,
       TARGET_PROFIT_PERCENT = 10 / 100,
       MAX_ORDER_RETRY = 3,
       ORDER_TYPE = ''MARKET'',
       PRODUCT_TYPE = ''CARRYFORWARD'' \<rparr>"

section \<open>modules/rms\_module.py: the RiskManager\<close>

text \<open>
  The \<open>positions\<close> dict is an association list in insertion order (Python dicts iterate in
  insertion order, and \<open>_close_all_positions\<close> depends on it). Wall-clock timestamps
  (\<open>datetime.now()\<close>) of positions and trade records are left out; no operation reads them.
\<close>

record position =
  symbol :: string
  side :: string
  quantity :: int
  entry_price :: real
  current_price :: real
  stop_loss :: "real option"
  take_profit :: "real option"

record trade_record =
  t_symbol :: string
  t_side :: string
  t_quantity :: int
  t_entry_price :: real
  t_exit_price :: real
  t_pnl :: real

record risk_manager =
  positions :: "(string \<times> position) list"
  portfolio_value :: real
  daily_start_value :: real
  max_positions :: int
  max_daily_loss :: real
  max_position_size :: real
  position_size_percent :: real
  stop_loss_percent :: real
  target_profit_percent :: real
  daily_pnl :: real
  peak_portfolio_value :: real
  max_drawdown :: real
  trade_history :: "trade_record list"
  daily_loss_limit_hit :: bool
  portfolio_stop_active :: bool

definition init_risk_manager :: "config \<Rightarrow> risk_manager" where
  \<comment> \<open>\<open>RiskManager.__init__\<close>\<close>
  "init_risk_manager cfg =
     \<lparr> positions = [],
       portfolio_value = MAX_POSITION_SIZE cfg,
       daily_start_value = MAX_POSITION_SIZE cfg,
       max_positions = MAX_POSITIONS cfg,
       max_daily_loss = MAX_DAILY_LOSS cfg,
       max_position_size = MAX_POSITION_SIZE cfg,
       position_size_percent = POSITION_SIZE_PERCENT cfg,
       stop_loss_percent = STOP_LOSS_PERCENT cfg,
       target_profit_percent = TARGET_PROFIT_PERCENT cfg,
       daily_pnl = 0,
       peak_portfolio_value = MAX_POSITION_SIZE cfg,
       max_drawdown = 0,
       trade_history = [],
       daily_loss_limit_hit = False,
       portfolio_stop_active = False \<rparr>"

definition unrealized_pnl :: "position \<Rightarrow> real" where
  "unrealized_pnl p =
     (if side p = ''long'' then (current_price p - entry_price p) * real_of_int (quantity p)
      else (entry_price p - current_price p) * real_of_int (quantity p))"

definition risk_amount :: "position \<Rightarrow> real" where
  \<comment> \<open>\<open>not self.stop_loss\<close> holds for \<open>None\<close> and for \<open>0.0\<close>.\<close>
  "risk_amount p =
     (case stop_loss p of
        None \<Rightarrow> 0
      | Some sl \<Rightarrow>
          if sl = 0 then 0
          else if side p = ''long'' then (entry_price p - sl) * real_of_int (quantity p)
          else (sl - entry_price p) * real_of_int (quantity p))"

definition apply_lot_size :: "config \<Rightarrow> string \<Rightarrow> int \<Rightarrow> int option" where
  \<comment> \<open>The lot-size step of \<open>calculate_position_size\<close>: the table is read at
      \<open>symbol.upper()\<close>; \<open>None\<close> is the \<open>ZeroDivisionError\<close> of a zero lot size.\<close>
  "apply_lot_size cfg symb qty =
     (case map_of (LOT_SIZE cfg) (upper symb) of
        None \<Rightarrow> Some qty
      | Some lot_size \<Rightarrow>
          if lot_size = 0 then None else Some ((qty div lot_size) * lot_size))"

definition final_check :: "risk_manager \<Rightarrow> real \<Rightarrow> int \<Rightarrow> int" where
  \<comment> \<open>The "final check against portfolio limits" of \<open>calculate_position_size\<close>.\<close>
  "final_check rm entry qty =
     (if max_position_size rm < real_of_int qty * entry
      then max (py_int (max_position_size rm / entry)) 1
      else qty)"

definition calculate_position_size ::
  "config \<Rightarrow> risk_manager \<Rightarrow> string \<Rightarrow> real \<Rightarrow> real \<Rightarrow> string \<Rightarrow> int" where
  \<comment> \<open>Every exception inside the \<open>try\<close> (a division by zero) makes the method return 0.\<close>
  "calculate_position_size cfg rm symb entry stop sd =
     (if max_positions rm \<le> int (length (positions rm)) then 0
      else if daily_loss_limit_hit rm then 0
      else
        let risk_per_trade = portfolio_value rm * position_size_percent rm;
            risk_amount_per_unit = (if sd = ''long'' then entry - stop else stop - entry)
        in
        if risk_amount_per_unit \<le> 0 then 0
        else if entry = 0 then 0
        else
          let qty0 = py_int (risk_per_trade / risk_amount_per_unit);
              max_quantity_by_value = py_int (max_position_size rm / entry)
          in
          case apply_lot_size cfg symb (min qty0 max_quantity_by_value) of
            None \<Rightarrow> 0
          | Some qty' \<Rightarrow> final_check rm entry (max qty' 1))"

definition close_position ::
  "risk_manager \<Rightarrow> string \<Rightarrow> real option \<Rightarrow> bool \<times> risk_manager" where
  \<comment> \<open>The closing log line divides by \<open>entry_price * quantity\<close>: when that is zero the
      exception is caught after the state was updated, and the method returns \<open>False\<close>.\<close>
  "close_position rm symb exit_price =
     (case map_of (positions rm) symb of
        None \<Rightarrow> (False, rm)
      | Some pos \<Rightarrow>
          let ep = (case exit_price of None \<Rightarrow> current_price pos | Some x \<Rightarrow> x);
              pnl = (if ep = current_price pos then unrealized_pnl pos
                     else if side pos = ''long''
                       then (ep - entry_price pos) * real_of_int (quantity pos)
                     else (entry_price pos - ep) * real_of_int (quantity pos));
              trec = \<lparr> t_symbol = symb, t_side = side pos, t_quantity = quantity pos,
                      t_entry_price = entry_price pos, t_exit_price = ep, t_pnl = pnl \<rparr>
          in
          (entry_price pos * real_of_int (quantity pos) \<noteq> 0,
           rm \<lparr> portfolio_value := portfolio_value rm + (real_of_int (quantity pos) * ep + pnl),
                trade_history := trade_history rm @ [trec],
                daily_pnl := daily_pnl rm + pnl,
                positions := AList.delete symb (positions rm) \<rparr>))"

definition open_position ::
  "config \<Rightarrow> risk_manager \<Rightarrow> string \<Rightarrow> string \<Rightarrow> int \<Rightarrow> real \<Rightarrow> real option
     \<Rightarrow> bool \<times> risk_manager" where
  \<comment> \<open>The take-profit line divides by \<open>self.stop_loss_percent\<close>; when that is zero the
      exception is caught after an existing position was closed.\<close>
  "open_position cfg rm symb sd qty entry sl =
     (if qty \<le> 0 then (False, rm)
      else
        let rm1 = (if map_of (positions rm) symb \<noteq> None
                   then snd (close_position rm symb None) else rm);
            stop = (case sl of
                      Some s \<Rightarrow> s
                    | None \<Rightarrow>
                        if sd = ''long'' then entry * (1 - stop_loss_percent rm1)
                        else entry * (1 + stop_loss_percent rm1));
            risk = \<bar>entry - stop\<bar>
        in
        if stop_loss_percent rm1 = 0 then (False, rm1)
        else
          let tp = (if sd = ''long''
                    then entry + risk * TARGET_PROFIT_PERCENT cfg / stop_loss_percent rm1
                    else entry - risk * TARGET_PROFIT_PERCENT cfg / stop_loss_percent rm1);
              pos = \<lparr> symbol = symb, side = sd, quantity = qty, entry_price = entry,
                      current_price = entry, stop_loss = Some stop, take_profit = Some tp \<rparr>
          in
          (True,
           rm1 \<lparr> positions := AList.update symb pos (positions rm1),
                 portfolio_value := portfolio_value rm1 - real_of_int qty * entry \<rparr>))"

definition check_stop_loss :: "risk_manager \<Rightarrow> position \<Rightarrow> bool \<times> risk_manager" where
  \<comment> \<open>\<open>_check_stop_loss\<close>: the result of \<open>close_position\<close> is ignored.\<close>
  "check_stop_loss rm pos =
     (case stop_loss pos of
        None \<Rightarrow> (False, rm)
      | Some sl \<Rightarrow>
          if sl = 0 then (False, rm)
          else if (side pos = ''long'' \<and> current_price pos \<le> sl)
                \<or> (side pos = ''short'' \<and> sl \<le> current_price pos)
          then (True, snd (close_position rm (symbol pos) (Some sl)))
          else (False, rm))"

definition check_take_profit :: "risk_manager \<Rightarrow> position \<Rightarrow> bool \<times> risk_manager" where
  \<comment> \<open>\<open>_check_take_profit\<close>\<close>
  "check_take_profit rm pos =
     (case take_profit pos of
        None \<Rightarrow> (False, rm)
      | Some tp \<Rightarrow>
          if tp = 0 then (False, rm)
          else if (side pos = ''long'' \<and> tp \<le> current_price pos)
                \<or> (side pos = ''short'' \<and> current_price pos \<le> tp)
          then (True, snd (close_position rm (symbol pos) (Some tp)))
          else (False, rm))"

fun update_loop :: "risk_manager \<Rightarrow> (string \<times> real) list \<Rightarrow> risk_manager" where
  \<comment> \<open>The \<open>for symbol, price in price_updates.items()\<close> loop of \<open>update_positions\<close>.\<close>
  "update_loop rm [] = rm"
| "update_loop rm ((symb, price) # rest) =
     (case map_of (positions rm) symb of
        None \<Rightarrow> update_loop rm rest
      | Some pos \<Rightarrow>
          let pos' = pos \<lparr> current_price := price \<rparr>;
              rm1 = rm \<lparr> positions := AList.update symb pos' (positions rm) \<rparr>;
              r1 = check_stop_loss rm1 pos'
          in
          if fst r1 then update_loop (snd r1) rest
          else update_loop (snd (check_take_profit (snd r1) pos')) rest)"

definition update_risk_metrics :: "risk_manager \<Rightarrow> risk_manager" where
  \<comment> \<open>\<open>_update_risk_metrics\<close>: a zero peak makes the drawdown division raise, which is caught.\<close>
  "update_risk_metrics rm =
     (let current_value =
            portfolio_value rm
            + (\<Sum>p \<leftarrow> map snd (positions rm). real_of_int (quantity p) * current_price p)
      in
      if peak_portfolio_value rm < current_value
      then rm \<lparr> peak_portfolio_value := current_value \<rparr>
      else if peak_portfolio_value rm = 0 then rm
      else rm \<lparr> max_drawdown :=
                   max (max_drawdown rm)
                       ((peak_portfolio_value rm - current_value) / peak_portfolio_value rm) \<rparr>)"

definition close_all_positions :: "risk_manager \<Rightarrow> risk_manager" where
  \<comment> \<open>\<open>_close_all_positions\<close>: closes the symbols in the order of \<open>list(self.positions.keys())\<close>.\<close>
  "close_all_positions rm =
     foldl (\<lambda>r symb. snd (close_position r symb None)) rm (map fst (positions rm))"

definition check_portfolio_limits :: "risk_manager \<Rightarrow> risk_manager" where
  \<comment> \<open>\<open>_check_portfolio_limits\<close>\<close>
  "check_portfolio_limits rm =
     (let rm1 = (if \<not> daily_loss_limit_hit rm \<and> daily_pnl rm \<le> - max_daily_loss rm
                 then close_all_positions (rm \<lparr> daily_loss_limit_hit := True \<rparr>)
                 else rm)
      in
      if 20 / 100 \<le> max_drawdown rm1 \<and> \<not> portfolio_stop_active rm1
      then close_all_positions (rm1 \<lparr> portfolio_stop_active := True \<rparr>)
      else rm1)"

definition update_positions :: "risk_manager \<Rightarrow> (string \<times> real) list \<Rightarrow> risk_manager" where
  "update_positions rm price_updates =
     check_portfolio_limits (update_risk_metrics (update_loop rm price_updates))"

definition reset_daily_stats :: "risk_manager \<Rightarrow> risk_manager" where
  "reset_daily_stats rm =
     rm \<lparr> daily_pnl := 0, daily_loss_limit_hit := False,
          daily_start_value := portfolio_value rm \<rparr>"

text \<open>A session of the RiskManager: any sequence of calls of its public methods.\<close>

datatype rm_call =
    UpdatePositions "(string \<times> real) list"
  | OpenPosition string string int real "real option"
  | ClosePosition string "real option"

fun rm_step :: "config \<Rightarrow> risk_manager \<Rightarrow> rm_call \<Rightarrow> risk_manager" where
  "rm_step cfg rm (UpdatePositions ps) = update_positions rm ps"
| "rm_step cfg rm (OpenPosition symb sd qty entry sl) = snd (open_position cfg rm symb sd qty entry sl)"
| "rm_step cfg rm (ClosePosition symb ep) = snd (close_position rm symb ep)"

definition rm_run :: "config \<Rightarrow> risk_manager \<Rightarrow> rm_call list \<Rightarrow> risk_manager" where
  "rm_run cfg rm calls = foldl (rm_step cfg) rm calls"


definition spec_position_size :: "real \<Rightarrow> real \<Rightarrow> real \<Rightarrow> real \<Rightarrow> int option \<Rightarrow> int" where
  \<comment> \<open>The sizing rule in the words of the specification: floor of risk per trade over risk
      per unit, clamped by the size cap over the entry price, rounded down to a lot multiple,
      floored at 1.\<close>
  "spec_position_size risk_per_trade risk_per_unit max_size entry lot =
     (let q = min \<lfloor>risk_per_trade / risk_per_unit\<rfloor> \<lfloor>max_size / entry\<rfloor>;
          q' = (case lot of None \<Rightarrow> q | Some l \<Rightarrow> (q div l) * l)
      in max q' 1)"

text \<open>Example sessions: a long position stopped out far below its entry trips both
  breakers; a later cycle books a profit.\<close>

definition tripped :: risk_manager where
  "tripped = rm_run settings (init_risk_manager settings)
     [OpenPosition ''NIFTY'' ''long'' 1000 100 (Some 40), UpdatePositions [(''NIFTY'', 40)]]"

definition profitable_cycle :: "rm_call list" where
  "profitable_cycle =
     [OpenPosition ''NIFTY'' ''long'' 10 100 (Some 95), UpdatePositions [(''NIFTY'', 120)]]"

section \<open>modules/execution\_module.py: the entry path of the ExecutionEngine\<close>

text \<open>
  The broker is outside the repository. A call of \<open>api_client.place_order\<close> either raises,
  returns nothing, or returns a response whose \<open>status\<close> is truthy or not and which may carry
  an \<open>orderid\<close>; the broker is modelled by the answer it gives to each attempt of the retry
  loop. The sleeps between attempts are left out.
\<close>

datatype SignalType = BUY | SELL | HOLD | EXIT_LONG | EXIT_SHORT

record signal =
  sig_symbol :: string
  signal_type :: SignalType
  price :: real
  confidence :: real
  metadata_stop_loss :: "real option"
  metadata_take_profit :: "real option"

datatype OrderStatus = PENDING | OPEN | FILLED | CANCELLED | REJECTED | PARTIAL_FILL

record order =
  order_id :: string
  o_symbol :: string
  o_side :: string
  o_quantity :: int
  o_price :: real
  order_type :: string
  product_type :: string
  status :: OrderStatus
  filled_quantity :: int
  average_price :: real

datatype api_response = ApiRaises | ApiNoResponse | ApiResponse bool "string option"

record strategy_state =
  current_position :: "string option"
  s_entry_price :: "real option"
  s_stop_loss :: "real option"
  s_take_profit :: "real option"

record execution_engine =
  risk :: risk_manager
  pending_orders :: "(string \<times> order) list"
  strategies :: "(string \<times> strategy_state) list"
  max_order_retry :: nat











section \<open>modules/data\_module/historical\_data.py: merging candle series\<close>

text \<open>
  A DataFrame of candles is the list of its rows, in row order. A timestamp is the number of
  minutes since midnight of a day zero, so that \<open>t mod 1440\<close> is the time of day and 09:15 is
  minute 555. Prices are never \<open>NaN\<close> in this model.
\<close>

record candle =
  timestamp :: nat
  c_open :: real
  c_high :: real
  c_low :: real
  c_close :: real
  volume :: int

fun drop_duplicates_last :: "candle list \<Rightarrow> candle list" where
  \<comment> \<open>\<open>drop_duplicates(subset=['timestamp'], keep='last')\<close>: a row stays when no later row
      has its timestamp.\<close>
  "drop_duplicates_last [] = []"
| "drop_duplicates_last (r # rs) =
     (if timestamp r \<in> set (map timestamp rs) then drop_duplicates_last rs
      else r # drop_duplicates_last rs)"

definition merge_and_deduplicate :: "candle list \<Rightarrow> candle list \<Rightarrow> candle list" where
  \<comment> \<open>\<open>_merge_and_deduplicate\<close>: concat, drop duplicates, sort by timestamp.\<close>
  "merge_and_deduplicate existing_df new_df =
     sort_key timestamp (drop_duplicates_last (existing_df @ new_df))"

text \<open>Example candles: a flat one-minute candle, and two series that share a timestamp.\<close>

definition bar :: "nat \<Rightarrow> real \<Rightarrow> candle" where
  "bar t p = \<lparr> timestamp = t, c_open = p, c_high = p, c_low = p, c_close = p, volume = 10 \<rparr>"

definition series_a :: "candle list" where
  "series_a = [bar 557 3, bar 555 1, bar 556 2]"

definition series_b :: "candle list" where
  "series_b = [bar 556 20, bar 558 4]"

section \<open>modules/data\_module/data\_processor.py: resampling\<close>

text \<open>
  \<open>df.resample(target_interval, label='left').agg(...)\<close> is pandas, not code of the repository.
  Its behaviour for a frequency of \<open>k\<close> minutes, as modelled here: the rows are put in
  timestamp order (a stable sort), the bin edges are \<open>origin + i * k\<close> where \<open>origin\<close> is
  midnight of the first row's day (pandas' default \<open>origin='start_day'\<close>; the source passes
  neither \<open>origin\<close> nor \<open>offset\<close>), every bin from the one of the first row to the one of the
  last row gets a result row labelled with its left edge, and an empty bin gets \<open>NaN\<close> prices,
  which the source's \<open>dropna()\<close> removes. The target interval is given in minutes
  (\<open>'3min'\<close> is 3, \<open>'1H'\<close> is 60) and is positive.
\<close>

definition timeframe_minutes :: "(string \<times> nat) list" where
  \<comment> \<open>The keys of \<open>timeframe_map\<close> in \<open>update_resampled_data\<close>, with their length in minutes.\<close>
  "timeframe_minutes =
     [(''3min'', 3), (''5min'', 5), (''10min'', 10), (''15min'', 15), (''30min'', 30), (''1H'', 60)]"

definition MARKET_OPEN :: nat where "MARKET_OPEN = 9 * 60 + 15"

definition MARKET_CLOSE :: nat where "MARKET_CLOSE = 15 * 60 + 30"

definition filter_market_hours :: "candle list \<Rightarrow> candle list" where
  \<comment> \<open>\<open>df[df_time <= close_time]\<close>\<close>
  "filter_market_hours df = filter (\<lambda>r. timestamp r mod 1440 \<le> MARKET_CLOSE) df"

definition start_day :: "candle list \<Rightarrow> nat" where
  \<comment> \<open>Midnight of the day of the first row (of rows in timestamp order).\<close>
  "start_day rows = (timestamp (hd rows) div 1440) * 1440"

definition bucket_start :: "nat \<Rightarrow> nat \<Rightarrow> nat \<Rightarrow> nat" where
  \<comment> \<open>The left edge of the bin that holds minute \<open>t\<close>.\<close>
  "bucket_start origin k t = origin + ((t - origin) div k) * k"

definition bins :: "candle list \<Rightarrow> nat \<Rightarrow> nat list" where
  \<comment> \<open>The left edges of all bins, from the bin of the first row to the bin of the last row.\<close>
  "bins rows k =
     (let first = bucket_start (start_day rows) k (timestamp (hd rows));
          final = bucket_start (start_day rows) k (timestamp (last rows))
      in map (\<lambda>i. first + i * k) [0 ..< Suc ((final - first) div k)])"

definition bucket_rows :: "candle list \<Rightarrow> nat \<Rightarrow> nat \<Rightarrow> candle list" where
  \<comment> \<open>The rows of one bin, in timestamp order.\<close>
  "bucket_rows rows k edge =
     filter (\<lambda>r. bucket_start (start_day rows) k (timestamp r) = edge) rows"

definition agg :: "nat \<Rightarrow> candle list \<Rightarrow> candle option" where
  \<comment> \<open>\<open>open: first, high: max, low: min, close: last, volume: sum\<close>; an empty bin gives
      the \<open>NaN\<close> row that \<open>dropna()\<close> removes.\<close>
  "agg edge rs =
     (if rs = [] then None
      else Some \<lparr> timestamp = edge,
                  c_open = c_open (hd rs),
                  c_high = Max (set (map c_high rs)),
                  c_low = Min (set (map c_low rs)),
                  c_close = c_close (last rs),
                  volume = sum_list (map volume rs) \<rparr>)"

definition resample_data :: "candle list \<Rightarrow> nat \<Rightarrow> candle list" where
  "resample_data df k =
     (let df1 = filter_market_hours df in
      if df1 = [] then []
      else
        let rows = sort_key timestamp df1
        in List.map_filter (\<lambda>edge. agg edge (bucket_rows rows k edge)) (bins rows k))"



section \<open>strategy\_deploy\_1.py: the SwingLevelsDetector\<close>

text \<open>
  The detector reads the \<open>close\<close> column and the index of the frame: a frame is the list of
  its (index label, close) pairs, in row order.
\<close>

record level =
  date :: int
  high :: real

definition swing_high :: "real \<Rightarrow> (int \<times> real) list \<Rightarrow> nat \<Rightarrow> bool" where
  \<comment> \<open>The swing-high condition of \<open>get_buy_level\<close> at loop index \<open>i\<close>.\<close>
  "swing_high diff df i =
     (let c = snd (last df);
          middle_close = snd (df ! (i - 2));
          left_close = snd (df ! (i - 3));
          right_close = snd (df ! (i - 1))
      in right_close < middle_close \<and> diff < middle_close - right_close
       \<and> left_close < middle_close \<and> diff < middle_close - left_close
       \<and> c < middle_close)"

definition swing_high_candidates :: "real \<Rightarrow> (int \<times> real) list \<Rightarrow> level list" where
  \<comment> \<open>\<open>for i in range(3, len(df) + 1)\<close>: the candidates, in row order.\<close>
  "swing_high_candidates diff df =
     map (\<lambda>i. \<lparr> date = fst (df ! (i - 2)), high = snd (df ! (i - 2)) \<rparr>)
       (filter (swing_high diff df) [3 ..< length df + 1])"

fun non_virgin :: "level list \<Rightarrow> level list" where
  \<comment> \<open>The \<open>delete\<close> list: level \<open>i\<close> goes in when some level \<open>j > i\<close> has a higher price
      and a later date.\<close>
  "non_virgin [] = []"
| "non_virgin (x # xs) =
     (if list_ex (\<lambda>y. high x < high y \<and> date x < date y) xs then x # non_virgin xs
      else non_virgin xs)"

definition remove_all :: "level list \<Rightarrow> level list \<Rightarrow> level list" where
  \<comment> \<open>\<open>for item in delete: if item in self.buy_level: self.buy_level.remove(item)\<close>\<close>
  "remove_all delete levels = foldl (\<lambda>ls item. remove1 item ls) levels delete"

definition keep_lowest :: "level list \<Rightarrow> level list" where
  \<comment> \<open>"Keep only the lowest (closest to current price) swing high".\<close>
  "keep_lowest levels =
     (if levels = [] then []
      else filter (\<lambda>l. high l = hd (sort (map high levels))) levels)"

definition get_buy_level :: "real \<Rightarrow> (int \<times> real) list \<Rightarrow> level list" where
  "get_buy_level diff df =
     (if df = [] then []
      else
        let buy_level = swing_high_candidates diff df
        in keep_lowest (remove_all (non_virgin buy_level) buy_level))"

text \<open>Example frames for the detector: the current price is the last close, 1.\<close>

definition rising_highs :: "(int \<times> real) list" where
  \<comment> \<open>A swing high at 5, then a later swing high at 7.\<close>
  "rising_highs = [(0, 1), (1, 5), (2, 1), (3, 7), (4, 1)]"

definition falling_highs :: "(int \<times> real) list" where
  \<comment> \<open>A swing high at 7, then a later swing high at 5.\<close>
  "falling_highs = [(0, 1), (1, 7), (2, 1), (3, 5), (4, 1)]"

section \<open>Properties of the RiskManager\<close>

subsection \<open>What each operation keeps\<close>

lemma close_position_flags:
  "daily_loss_limit_hit (snd (close_position rm symb ep)) = daily_loss_limit_hit rm"
  "portfolio_stop_active (snd (close_position rm symb ep)) = portfolio_stop_active rm"
  by (simp_all add: close_position_def Let_def split: option.splits)



lemma open_position_flags:
  "daily_loss_limit_hit (snd (open_position cfg rm symb sd q e sl)) = daily_loss_limit_hit rm"
  "portfolio_stop_active (snd (open_position cfg rm symb sd q e sl)) = portfolio_stop_active rm"
  by (simp_all add: open_position_def Let_def close_position_flags)




lemma check_stop_loss_flags:
  "daily_loss_limit_hit (snd (check_stop_loss rm pos)) = daily_loss_limit_hit rm"
  "portfolio_stop_active (snd (check_stop_loss rm pos)) = portfolio_stop_active rm"
  by (simp_all add: check_stop_loss_def close_position_flags split: option.splits)

lemma check_take_profit_flags:
  "daily_loss_limit_hit (snd (check_take_profit rm pos)) = daily_loss_limit_hit rm"
  "portfolio_stop_active (snd (check_take_profit rm pos)) = portfolio_stop_active rm"
  by (simp_all add: check_take_profit_def close_position_flags split: option.splits)



lemma update_loop_flags:
  "daily_loss_limit_hit (update_loop rm ps) = daily_loss_limit_hit rm"
  "portfolio_stop_active (update_loop rm ps) = portfolio_stop_active rm"
  by (induction rm ps rule: update_loop.induct;
      simp add: Let_def check_stop_loss_flags check_take_profit_flags split: option.splits)+



lemma update_risk_metrics_same:
  "positions (update_risk_metrics rm) = positions rm"
  "daily_loss_limit_hit (update_risk_metrics rm) = daily_loss_limit_hit rm"
  "portfolio_stop_active (update_risk_metrics rm) = portfolio_stop_active rm"
  by (simp_all add: update_risk_metrics_def Let_def)

lemma foldl_close_flags:
  "daily_loss_limit_hit (foldl (\<lambda>r symb. snd (close_position r symb None)) rm ks) = daily_loss_limit_hit rm"
  "portfolio_stop_active (foldl (\<lambda>r symb. snd (close_position r symb None)) rm ks) = portfolio_stop_active rm"
  by (induction ks arbitrary: rm; simp add: close_position_flags)+


lemma close_all_positions_flags:
  "daily_loss_limit_hit (close_all_positions rm) = daily_loss_limit_hit rm"
  "portfolio_stop_active (close_all_positions rm) = portfolio_stop_active rm"
  by (simp_all add: close_all_positions_def foldl_close_flags)


lemma check_portfolio_limits_daily:
  "daily_loss_limit_hit rm \<Longrightarrow> daily_loss_limit_hit (check_portfolio_limits rm)"
  by (simp add: check_portfolio_limits_def Let_def close_all_positions_flags)

lemma check_portfolio_limits_stop:
  "portfolio_stop_active rm \<Longrightarrow> portfolio_stop_active (check_portfolio_limits rm)"
  by (simp add: check_portfolio_limits_def Let_def close_all_positions_flags)


lemma rm_step_daily: "daily_loss_limit_hit rm \<Longrightarrow> daily_loss_limit_hit (rm_step cfg rm c)"
  by (cases c) (simp_all add: update_positions_def check_portfolio_limits_daily
        update_risk_metrics_same update_loop_flags open_position_flags close_position_flags)

lemma rm_step_stop: "portfolio_stop_active rm \<Longrightarrow> portfolio_stop_active (rm_step cfg rm c)"
  by (cases c) (simp_all add: update_positions_def check_portfolio_limits_stop
        update_risk_metrics_same update_loop_flags open_position_flags close_position_flags)


lemma rm_run_daily: "daily_loss_limit_hit rm \<Longrightarrow> daily_loss_limit_hit (rm_run cfg rm calls)"
  unfolding rm_run_def by (induction calls arbitrary: rm) (simp_all add: rm_step_daily)

lemma rm_run_stop: "portfolio_stop_active rm \<Longrightarrow> portfolio_stop_active (rm_run cfg rm calls)"
  unfolding rm_run_def by (induction calls arbitrary: rm) (simp_all add: rm_step_stop)





subsection \<open>Closing a symbol that has no position\<close>

text \<open>
  C8 (as the code has it). For every symbol with no open Position, \<open>close_position\<close> changes
  nothing: the position set, \<open>portfolio_value\<close>, the trade history and the daily P&L are
  the ones it was called with. The value it returns is \<open>False\<close>, not \<open>True\<close>.
\<close>

theorem close_position_absent_noop:
  "map_of (positions rm) symb = None \<Longrightarrow> close_position rm symb exit_price = (False, rm)"
  by (simp add: close_position_def)

theorem close_position_absent_noop_witness:
  "map_of (positions (init_risk_manager settings)) ''NIFTY'' = None
   \<and> close_position (init_risk_manager settings) ''NIFTY'' (Some 105)
       = (False, init_risk_manager settings)"
  using close_position_absent_noop [of "init_risk_manager settings" "''NIFTY''" "Some 105"]
  by (simp add: init_risk_manager_def)

theorem close_position_absent_returns_true_counterexample:
  "map_of (positions (init_risk_manager settings)) ''NIFTY'' = None
   \<and> fst (close_position (init_risk_manager settings) ''NIFTY'' None) \<noteq> True"
  by (simp add: close_position_def init_risk_manager_def)

subsection \<open>Opening and then closing a position\<close>



subsection \<open>One position per symbol\<close>



subsection \<open>The circuit breakers\<close>

text \<open>
  C7 (as the code has it). Both circuit breakers are one-way latches within a session: once
  \<open>daily_loss_limit_hit\<close> or \<open>portfolio_stop_active\<close> is set, no sequence of
  \<open>update_positions\<close>, \<open>open_position\<close> and \<open>close_position\<close> calls clears it. A call of
  \<open>reset_daily_stats\<close> clears the daily-loss breaker and leaves \<open>portfolio_stop_active\<close>
  as it was.
\<close>

theorem breaker_latch:
  "(daily_loss_limit_hit rm \<longrightarrow> daily_loss_limit_hit (rm_run cfg rm calls))
   \<and> (portfolio_stop_active rm \<longrightarrow> portfolio_stop_active (rm_run cfg rm calls))
   \<and> \<not> daily_loss_limit_hit (reset_daily_stats rm)
   \<and> portfolio_stop_active (reset_daily_stats rm) = portfolio_stop_active rm"
  by (simp add: rm_run_daily rm_run_stop reset_daily_stats_def)

text \<open>The latch at work: both breakers are tripped, a profitable cycle follows, both stay
  tripped.\<close>

theorem breaker_latch_witness:
  "daily_loss_limit_hit tripped \<and> portfolio_stop_active tripped
   \<and> daily_pnl tripped < daily_pnl (rm_run settings tripped profitable_cycle)
   \<and> daily_loss_limit_hit (rm_run settings tripped profitable_cycle)
   \<and> portfolio_stop_active (rm_run settings tripped profitable_cycle)
   \<and> \<not> daily_loss_limit_hit (reset_daily_stats tripped)"
proof -
  have a: "daily_loss_limit_hit tripped \<and> portfolio_stop_active tripped"
    by code_simp
  have b: "daily_pnl tripped < daily_pnl (rm_run settings tripped profitable_cycle)"
    by code_simp
  show ?thesis
    using a b breaker_latch [of tripped settings profitable_cycle] by simp
qed

text \<open>C7 as stated fails: \<open>reset_daily_stats\<close> does not clear the drawdown breaker.\<close>

theorem reset_keeps_portfolio_stop_counterexample:
  "portfolio_stop_active tripped \<and> portfolio_stop_active (reset_daily_stats tripped)"
  by code_simp

subsection \<open>Position sizing\<close>



lemma py_int_le_floor_cases:
  "0 \<le> x \<Longrightarrow> py_int x = \<lfloor>x\<rfloor>" "x < 0 \<Longrightarrow> py_int x \<le> 0 \<and> \<lfloor>x\<rfloor> \<le> 0"
  by (auto simp: py_int_def ceiling_le_zero intro: order_trans[OF floor_le_ceiling])

lemma lot_round_le: "0 < (l::int) \<Longrightarrow> (q div l) * l \<le> q"
  using div_mult_mod_eq[of q l] pos_mod_sign[of l q] by linarith

lemma final_check_noop:
  assumes "0 < entry" and "1 \<le> q" and "q \<le> 1 \<or> real_of_int q \<le> max_position_size rm / entry"
  shows "final_check rm entry q = q"
proof (cases "max_position_size rm < real_of_int q * entry")
  case False
  then show ?thesis by (simp add: final_check_def)
next
  case True
  then have "\<not> real_of_int q \<le> max_position_size rm / entry"
    using assms(1) by (simp add: pos_le_divide_eq)
  with assms have q1: "q = 1" by auto
  with True have "max_position_size rm / entry < 1"
    using assms(1) by (simp add: pos_divide_less_eq)
  then have "py_int (max_position_size rm / entry) \<le> 0"
    by (auto simp: py_int_def ceiling_le_zero floor_le_iff  intro: order_trans[OF floor_le_ceiling])
  then show ?thesis using True q1 by (simp add: final_check_def)
qed

lemma calculate_position_size_refuses:
  "max_positions rm \<le> int (length (positions rm)) \<or> daily_loss_limit_hit rm
     \<or> (if sd = ''long'' then entry - stop else stop - entry) \<le> 0
   \<Longrightarrow> calculate_position_size cfg rm symb entry stop sd = 0"
  by (auto simp: calculate_position_size_def Let_def)


lemma calculate_position_size_formula:
  assumes "\<not> max_positions rm \<le> int (length (positions rm))"
      and "\<not> daily_loss_limit_hit rm"
      and "0 < (if sd = ''long'' then entry - stop else stop - entry)"
      and "0 < entry"
      and "\<forall>l. map_of (LOT_SIZE cfg) (upper symb) = Some l \<longrightarrow> 0 < l"
  shows "calculate_position_size cfg rm symb entry stop sd
         = spec_position_size (portfolio_value rm * position_size_percent rm)
             (if sd = ''long'' then entry - stop else stop - entry)
             (max_position_size rm) entry (map_of (LOT_SIZE cfg) (upper symb))"
proof -
  define a where "a = portfolio_value rm * position_size_percent rm / (if sd = ''long'' then entry - stop else stop - entry)"
  define b where "b = max_position_size rm / entry"
  define lot where "lot = map_of (LOT_SIZE cfg) (upper symb)"
  define rnd where "rnd = (\<lambda>q::int. case lot of None \<Rightarrow> q | Some l \<Rightarrow> (q div l) * l)"
  have lotpos: "\<And>l. lot = Some l \<Longrightarrow> 0 < l" using assms(5) by (simp add: lot_def)
  have rnd_le: "rnd q \<le> q" for q
    by (cases lot) (simp_all add: rnd_def lot_round_le lotpos)
  have code: "calculate_position_size cfg rm symb entry stop sd
              = final_check rm entry (max (rnd (min (py_int a) (py_int b))) 1)"
    using assms(1-4) lotpos
    by (cases lot) (auto simp: calculate_position_size_def apply_lot_size_def Let_def a_def b_def
          rnd_def lot_def[symmetric])
  have spec: "spec_position_size (portfolio_value rm * position_size_percent rm)
             (if sd = ''long'' then entry - stop else stop - entry)
             (max_position_size rm) entry (map_of (LOT_SIZE cfg) (upper symb))
              = max (rnd (min \<lfloor>a\<rfloor> \<lfloor>b\<rfloor>)) 1"
    by (simp add: spec_position_size_def Let_def a_def b_def rnd_def lot_def)
  show ?thesis
  proof (cases "0 \<le> a \<and> 0 \<le> b")
    case True
    then have eq: "py_int a = \<lfloor>a\<rfloor>" "py_int b = \<lfloor>b\<rfloor>"
      by (simp_all add: py_int_le_floor_cases)
    have "rnd (min \<lfloor>a\<rfloor> \<lfloor>b\<rfloor>) \<le> \<lfloor>b\<rfloor>"
      using rnd_le[of "min \<lfloor>a\<rfloor> \<lfloor>b\<rfloor>"] by simp
    then have "real_of_int (rnd (min \<lfloor>a\<rfloor> \<lfloor>b\<rfloor>)) \<le> b"
      by (meson le_floor_iff)
    then have "max (rnd (min \<lfloor>a\<rfloor> \<lfloor>b\<rfloor>)) 1 \<le> 1
               \<or> real_of_int (max (rnd (min \<lfloor>a\<rfloor> \<lfloor>b\<rfloor>)) 1) \<le> max_position_size rm / entry"
      by (auto simp: b_def max_def)
    then have "final_check rm entry (max (rnd (min \<lfloor>a\<rfloor> \<lfloor>b\<rfloor>)) 1)
               = max (rnd (min \<lfloor>a\<rfloor> \<lfloor>b\<rfloor>)) 1"
      by (intro final_check_noop assms(4)) simp_all
    then show ?thesis by (simp add: code spec eq)
  next
    case False
    then have neg: "a < 0 \<or> b < 0" by auto
    then have "min (py_int a) (py_int b) \<le> 0"
      using py_int_le_floor_cases(2)[of a] py_int_le_floor_cases(2)[of b]
      by (auto simp: min_le_iff_disj)
    moreover have "min \<lfloor>a\<rfloor> \<lfloor>b\<rfloor> \<le> 0"
      using neg by (auto simp: min_le_iff_disj floor_le_iff)
    ultimately have "min (py_int a) (py_int b) \<le> 0" "min \<lfloor>a\<rfloor> \<lfloor>b\<rfloor> \<le> 0"
      by simp_all
    then have "rnd (min (py_int a) (py_int b)) \<le> 0" "rnd (min \<lfloor>a\<rfloor> \<lfloor>b\<rfloor>) \<le> 0"
      using rnd_le order_trans by blast+
    then have m: "max (rnd (min (py_int a) (py_int b))) 1 = 1" "max (rnd (min \<lfloor>a\<rfloor> \<lfloor>b\<rfloor>)) 1 = 1"
      by simp_all
    have "final_check rm entry 1 = 1"
      by (rule final_check_noop[OF assms(4)]) simp_all
    then show ?thesis by (simp add: code spec m)
  qed
qed

text \<open>
  C5, at the configuration the repository ships. \<open>LOT_SIZE\<close> gives \<open>nifty\<close> a lot size of 75,
  but \<open>calculate_position_size\<close> looks the symbol up in upper case while the keys of the
  table are lower case: for \<open>nifty\<close> and for \<open>NIFTY\<close> the quantity of the scenario
  (entry 100, stop 95, 2 percent of 100000 at risk) is 400, which is not a multiple of 75.
\<close>

theorem lot_size_never_applied:
  "map_of (LOT_SIZE settings) ''nifty'' = Some 75
   \<and> calculate_position_size settings (init_risk_manager settings) ''nifty'' 100 95 ''long'' = 400
   \<and> calculate_position_size settings (init_risk_manager settings) ''NIFTY'' 100 95 ''long'' = 400
   \<and> \<not> (75 :: int) dvd 400"
  by code_simp

section \<open>Properties of the entry path\<close>






section \<open>Properties of the merge\<close>

lemma ddl_subset: "set (drop_duplicates_last xs) \<subseteq> set xs"
  by (induction xs) auto

lemma ddl_timestamps: "set (map timestamp (drop_duplicates_last xs)) = set (map timestamp xs)"
  by (induction xs) auto

lemma ddl_distinct: "distinct (map timestamp (drop_duplicates_last xs))"
proof (induction xs)
  case Nil
  then show ?case by simp
next
  case (Cons r rs)
  have "timestamp r \<notin> timestamp ` set rs \<Longrightarrow> timestamp r \<notin> timestamp ` set (drop_duplicates_last rs)"
    using ddl_timestamps[of rs] by simp
  with Cons show ?case by simp
qed

lemma ddl_id: "distinct (map timestamp xs) \<Longrightarrow> drop_duplicates_last xs = xs"
  by (induction xs) auto

lemma ddl_append:
  "drop_duplicates_last (xs @ ys)
   = filter (\<lambda>r. timestamp r \<notin> set (map timestamp ys)) (drop_duplicates_last xs)
     @ drop_duplicates_last ys"
  by (induction xs) auto

lemma ddl_last:
  "r \<in> set (drop_duplicates_last xs) \<Longrightarrow> r = last (filter (\<lambda>x. timestamp x = timestamp r) xs)"
proof (induction xs)
  case Nil
  then show ?case by simp
next
  case (Cons a xs)
  show ?case
  proof (cases "timestamp a \<in> set (map timestamp xs)")
    case True
    with Cons.prems have "r \<in> set (drop_duplicates_last xs)" by simp
    then have r: "r = last (filter (\<lambda>x. timestamp x = timestamp r) xs)" by (rule Cons.IH)
    have "r \<in> set xs" using \<open>r \<in> set (drop_duplicates_last xs)\<close> ddl_subset by blast
    then have "filter (\<lambda>x. timestamp x = timestamp r) xs \<noteq> []"
      by (auto simp: filter_empty_conv)
    then show ?thesis using r by simp
  next
    case False
    with Cons.prems consider "r = a" | "r \<in> set (drop_duplicates_last xs)" by auto
    then show ?thesis
    proof cases
      case 1
      from False have "\<forall>x\<in>set xs. timestamp x \<noteq> timestamp a"
        by (metis image_eqI list.set_map)
      with 1 have "filter (\<lambda>x. timestamp x = timestamp r) xs = []"
        by (simp add: filter_empty_conv)
      with 1 show ?thesis by simp
    next
      case 2
      then have r: "r = last (filter (\<lambda>x. timestamp x = timestamp r) xs)" by (rule Cons.IH)
      have "r \<in> set xs" using 2 ddl_subset by blast
      then have "filter (\<lambda>x. timestamp x = timestamp r) xs \<noteq> []"
        by (auto simp: filter_empty_conv)
      then show ?thesis using r by simp
    qed
  qed
qed

lemma sort_key_distinct: "distinct (map f (sort_key f xs)) = distinct (map f xs)"
proof -
  have ins: "map f (insort_key f x ys) = insort (f x) (map f ys)" for x ys
    by (induction ys) simp_all
  have "map f (sort_key f xs) = sort (map f xs)"
    by (induction xs) (simp_all add: ins)
  then show ?thesis by simp
qed

lemma sorted_key_unique:
  assumes "set xs = set ys"
      and "distinct (map f xs)" and "distinct (map f ys)"
      and "sorted (map f xs)" and "sorted (map f ys)"
  shows "xs = ys"
proof -
  have "set (map f xs) = set (map f ys)" using assms(1) by simp
  then have m: "map f xs = map f ys"
    using assms(2-5) by (intro sorted_distinct_set_unique) simp_all
  have "inj_on f (set xs \<union> set ys)"
    using assms(1,2) by (simp add: distinct_map)
  then show ?thesis using m by (simp add: inj_on_map_eq_map)
qed

lemma merge_sorted: "sorted (map timestamp (merge_and_deduplicate A B))"
  by (simp add: merge_and_deduplicate_def)

lemma merge_distinct: "distinct (map timestamp (merge_and_deduplicate A B))"
  by (simp add: merge_and_deduplicate_def sort_key_distinct ddl_distinct)

lemma merge_set: "set (merge_and_deduplicate A B) = set (drop_duplicates_last (A @ B))"
  by (simp add: merge_and_deduplicate_def)

lemma merge_idem: "merge_and_deduplicate (merge_and_deduplicate A B) B = merge_and_deduplicate A B"
proof -
  define M where "M = merge_and_deduplicate A B"
  have dM: "drop_duplicates_last M = M"
    by (simp add: M_def ddl_id merge_distinct)
  have inB: "\<And>r. r \<in> set (drop_duplicates_last B) \<Longrightarrow> timestamp r \<in> set (map timestamp B)"
    using ddl_subset[of B] by auto
  have setM: "set M = set (filter (\<lambda>r. timestamp r \<notin> set (map timestamp B)) (drop_duplicates_last A))
                      \<union> set (drop_duplicates_last B)"
    by (simp add: M_def merge_set ddl_append)
  have "set (drop_duplicates_last (M @ B)) = set M"
    unfolding ddl_append dM using inB by (auto simp: setM)
  then have s: "set (merge_and_deduplicate M B) = set M"
    by (simp add: merge_set)
  show ?thesis
    unfolding M_def[symmetric]
    by (rule sorted_key_unique[OF s, of timestamp])
       (simp_all add: merge_distinct merge_sorted M_def)
qed

text \<open>
  C2. For every pair of candle series \<open>A\<close> and \<open>B\<close>, \<open>_merge_and_deduplicate\<close> is idempotent in
  its second argument, its result is sorted ascending by timestamp with no duplicate
  timestamps, it holds exactly the timestamps of \<open>A\<close> and \<open>B\<close>, and on a duplicate timestamp
  it keeps the newest row: every row of the result is the last row of \<open>A\<close> followed by \<open>B\<close>
  that has its timestamp.
\<close>

theorem merge_and_deduplicate_idempotent:
  "merge_and_deduplicate (merge_and_deduplicate A B) B = merge_and_deduplicate A B
   \<and> sorted (map timestamp (merge_and_deduplicate A B))
   \<and> distinct (map timestamp (merge_and_deduplicate A B))
   \<and> set (map timestamp (merge_and_deduplicate A B)) = set (map timestamp (A @ B))
   \<and> (\<forall>r \<in> set (merge_and_deduplicate A B).
         r = last (filter (\<lambda>x. timestamp x = timestamp r) (A @ B)))"
proof -
  have "set (map timestamp (merge_and_deduplicate A B)) = set (map timestamp (A @ B))"
    using ddl_timestamps[of "A @ B"] by (simp add: merge_and_deduplicate_def)
  moreover have "\<forall>r \<in> set (merge_and_deduplicate A B).
         r = last (filter (\<lambda>x. timestamp x = timestamp r) (A @ B))"
    using ddl_last[of _ "A @ B"] by (simp add: merge_set)
  ultimately show ?thesis
    using merge_idem merge_sorted merge_distinct by blast
qed

theorem merge_and_deduplicate_idempotent_witness:
  "bar 556 20 \<in> set (merge_and_deduplicate series_a series_b)
   \<and> bar 556 20 = last (filter (\<lambda>x. timestamp x = timestamp (bar 556 20)) (series_a @ series_b))
   \<and> merge_and_deduplicate (merge_and_deduplicate series_a series_b) series_b
       = [bar 555 1, bar 556 20, bar 557 3, bar 558 4]"
proof -
  have a: "merge_and_deduplicate series_a series_b = [bar 555 1, bar 556 20, bar 557 3, bar 558 4]"
    by code_simp
  then have b: "bar 556 20 \<in> set (merge_and_deduplicate series_a series_b)"
    by simp
  show ?thesis
    using a b merge_and_deduplicate_idempotent [of series_a series_b] by simp
qed

section \<open>Properties of the resampler\<close>

lemma in_set_map_filter:
  "y \<in> set (List.map_filter f xs) \<longleftrightarrow> (\<exists>x \<in> set xs. f x = Some y)"
  by (induction xs) (auto simp: List.map_filter_simps split: option.splits)

lemma resample_data_elem:
  assumes "c \<in> set (resample_data df k)"
  shows "filter_market_hours df \<noteq> []
       \<and> (\<exists>edge \<in> set (bins (sort_key timestamp (filter_market_hours df)) k).
            agg edge (bucket_rows (sort_key timestamp (filter_market_hours df)) k edge) = Some c)"
  using assms
  by (auto simp: resample_data_def Let_def List.map_filter_def split: if_splits)

lemma agg_timestamp: "agg edge rs = Some c \<Longrightarrow> timestamp c = edge \<and> rs \<noteq> []"
  by (auto simp: agg_def split: if_splits)

lemma bins_aligned:
  "edge \<in> set (bins rows k) \<Longrightarrow> start_day rows \<le> edge \<and> k dvd (edge - start_day rows)"
  by (auto simp: bins_def Let_def bucket_start_def)


lemma resample_labels_midnight:
  assumes "c \<in> set (resample_data df k)" and "k dvd 1440"
  shows "k dvd timestamp c"
proof -
  from resample_data_elem[OF assms(1)] obtain edge where
    "edge \<in> set (bins (sort_key timestamp (filter_market_hours df)) k)"
    "agg edge (bucket_rows (sort_key timestamp (filter_market_hours df)) k edge) = Some c"
    by blast
  then have t: "timestamp c = edge" and
    al: "start_day (sort_key timestamp (filter_market_hours df)) \<le> edge"
        "k dvd (edge - start_day (sort_key timestamp (filter_market_hours df)))"
    using agg_timestamp bins_aligned by blast+
  have "k dvd start_day (sort_key timestamp (filter_market_hours df))"
    using assms(2) by (simp add: start_day_def)
  then have "k dvd edge" using al
    by (metis dvd_add le_add_diff_inverse)
  then show ?thesis by (simp add: t)
qed

lemma sorted_key_bounds:
  assumes "sorted (map f rows)" and "r \<in> set rows"
  shows "f (hd rows) \<le> f r \<and> f r \<le> f (last rows)"
proof -
  from assms(2) obtain i where i: "i < length rows" "rows ! i = r"
    by (auto simp: in_set_conv_nth)
  then have ne: "rows \<noteq> []" by auto
  have "map f rows ! 0 \<le> map f rows ! i"
    using assms(1) i(1) by (intro sorted_nth_mono) simp_all
  moreover have "map f rows ! i \<le> map f rows ! (length rows - 1)"
    using assms(1) i(1) by (intro sorted_nth_mono) simp_all
  ultimately show ?thesis
    using i ne by (simp add: hd_conv_nth last_conv_nth)
qed

lemma row_in_bins:
  assumes "0 < k" and "sorted (map timestamp rows)" and "r \<in> set rows"
  shows "bucket_start (start_day rows) k (timestamp r) \<in> set (bins rows k)"
proof -
  define o' where "o' = start_day rows"
  define a where "a = (timestamp (hd rows) - o') div k"
  define b where "b = (timestamp r - o') div k"
  define c where "c = (timestamp (last rows) - o') div k"
  from sorted_key_bounds[OF assms(2,3)]
  have le: "timestamp (hd rows) \<le> timestamp r" "timestamp r \<le> timestamp (last rows)" by simp_all
  have ab: "a \<le> b" and bc: "b \<le> c"
    using le by (simp_all add: a_def b_def c_def div_le_mono diff_le_mono)
  have fin: "(o' + c * k - (o' + a * k)) div k = c - a"
    using assms(1) ab bc by (simp add: diff_mult_distrib[symmetric])
  have "o' + b * k = (o' + a * k) + (b - a) * k"
    using ab by (simp add: diff_mult_distrib)
  moreover have "b - a < Suc (c - a)" using ab bc by simp
  ultimately have "o' + b * k \<in> (\<lambda>i. (o' + a * k) + i * k) ` set [0 ..< Suc ((o' + c * k - (o' + a * k)) div k)]"
    unfolding fin by (metis atLeastLessThan_iff imageI zero_le set_upt)
  then show ?thesis
    unfolding bins_def Let_def bucket_start_def o'_def a_def b_def c_def set_map .
qed

lemma resample_data_covers:
  assumes "0 < k" and "r \<in> set (filter_market_hours df)"
  shows "\<exists>c \<in> set (resample_data df k).
           timestamp c = bucket_start (start_day (sort_key timestamp (filter_market_hours df))) k (timestamp r)
         \<and> r \<in> set (bucket_rows (sort_key timestamp (filter_market_hours df)) k (timestamp c))"
proof -
  define rows where "rows = sort_key timestamp (filter_market_hours df)"
  define edge where "edge = bucket_start (start_day rows) k (timestamp r)"
  have ne: "filter_market_hours df \<noteq> []" using assms(2) by auto
  have r: "r \<in> set rows" using assms(2) by (simp add: rows_def)
  have "sorted (map timestamp rows)" by (simp add: rows_def)
  from row_in_bins[OF assms(1) this r] have e: "edge \<in> set (bins rows k)"
    by (simp add: edge_def)
  have rb: "r \<in> set (bucket_rows rows k edge)"
    using r by (simp add: bucket_rows_def edge_def)
  then have "bucket_rows rows k edge \<noteq> []" by auto
  then obtain c where c: "agg edge (bucket_rows rows k edge) = Some c"
    by (simp add: agg_def)
  then have t: "timestamp c = edge" by (simp add: agg_timestamp)
  have "c \<in> set (resample_data df k)"
    using ne e c by (auto simp: resample_data_def Let_def in_set_map_filter rows_def[symmetric])
  then show ?thesis
    using t rb unfolding rows_def[symmetric] edge_def[symmetric] by auto
qed

text \<open>
  C4, at one candle. \<open>update_resampled_data\<close> documents "1-hour candle from 9:15-10:15:
  timestamp = 9:15" (and the same for 30 and 10 minutes), but \<open>resample_data\<close> calls
  \<open>df.resample\<close> without an origin or offset, so the bins start at midnight: the candle of
  09:15 (minute 555) falls into the hourly and the 30-minute bucket labelled 09:00
  (minute 540) and into the 10-minute bucket labelled 09:10 (minute 550), none of which is
  09:15 plus a multiple of the bucket size.
\<close>

theorem hourly_bucket_starts_on_the_hour:
  "MARKET_OPEN = 555
   \<and> resample_data [bar 555 100] 60 = [bar 540 100] \<and> \<not> (60 :: int) dvd (540 - 555)
   \<and> resample_data [bar 555 100] 30 = [bar 540 100] \<and> \<not> (30 :: int) dvd (540 - 555)
   \<and> resample_data [bar 555 100] 10 = [bar 550 100] \<and> \<not> (10 :: int) dvd (550 - 555)"
  by code_simp




section \<open>Properties of the swing-level detector\<close>

lemma remove_all_filter:
  "distinct cs \<Longrightarrow> remove_all ds cs = filter (\<lambda>x. x \<notin> set ds) cs"
proof (induction ds arbitrary: cs)
  case Nil
  then show ?case by (simp add: remove_all_def)
next
  case (Cons d ds)
  have r: "remove1 d cs = filter (\<lambda>x. x \<noteq> d) cs"
    using Cons.prems by (simp add: distinct_remove1_removeAll removeAll_filter_not_eq) metis
  have "remove_all (d # ds) cs = remove_all ds (remove1 d cs)"
    by (simp add: remove_all_def)
  also have "\<dots> = filter (\<lambda>x. x \<notin> set ds) (remove1 d cs)"
    using Cons.prems by (intro Cons.IH) simp
  also have "\<dots> = filter (\<lambda>x. x \<notin> set (d # ds)) cs"
    unfolding r by (auto intro: filter_cong)
  finally show ?case .
qed

lemma non_virgin_iff:
  assumes "sorted_wrt (\<lambda>x y. date x < date y) cs"
  shows "x \<in> set (non_virgin cs)
         \<longleftrightarrow> x \<in> set cs \<and> (\<exists>y \<in> set cs. high x < high y \<and> date x < date y)"
  using assms
proof (induction cs)
  case Nil
  then show ?case by simp
next
  case (Cons c cs)
  then have ih: "x \<in> set (non_virgin cs)
         \<longleftrightarrow> x \<in> set cs \<and> (\<exists>y \<in> set cs. high x < high y \<and> date x < date y)"
    and later: "\<forall>y \<in> set cs. date c < date y"
    by simp_all
  show ?case
  proof (cases "x = c")
    case True
    then show ?thesis using ih later by (auto simp: list_ex_iff)
  next
    case False
    have "\<not> date x < date c" if "x \<in> set cs"
      using later that by force
    then show ?thesis using False ih by (auto simp: list_ex_iff)
  qed
qed

lemma hd_sort_Min: "xs \<noteq> [] \<Longrightarrow> hd (sort xs) = Min (set xs)"
proof -
  assume ne: "xs \<noteq> []"
  then have ne': "sort xs \<noteq> []" by (metis length_0_conv length_sort)
  have "hd (sort xs) \<in> set xs" using ne' by (metis hd_in_set set_sort)
  moreover have "hd (sort xs) \<le> y" if "y \<in> set xs" for y
  proof -
    from that have "y \<in> set (sort xs)" by simp
    then show ?thesis using ne'
      by (metis list.sel(1) list.set_cases order_refl set_ConsD sorted_simps(2) sorted_sort)
  qed
  ultimately show ?thesis by (intro Min_eqI[symmetric]) simp_all
qed

lemma candidates_dates_increase:
  assumes "sorted_wrt (<) (map fst df)"
  shows "sorted_wrt (\<lambda>x y. date x < date y) (swing_high_candidates diff df)"
proof -
  have idx: "sorted_wrt (\<lambda>i j. fst (df ! (i - 2)) < fst (df ! (j - 2))) [3 ..< length df + 1]"
  proof (rule sorted_wrt_mono_rel[OF _ sorted_wrt_upt])
    fix i j
    assume "i \<in> set [3 ..< length df + 1]" "j \<in> set [3 ..< length df + 1]" "i < j"
    then have "i - 2 < j - 2" "j - 2 < length (map fst df)" by auto
    from sorted_wrt_nth_less[OF assms this]
    show "fst (df ! (i - 2)) < fst (df ! (j - 2))"
      using \<open>i - 2 < j - 2\<close> \<open>j - 2 < length (map fst df)\<close> by simp
  qed
  show ?thesis
    unfolding swing_high_candidates_def sorted_wrt_map
    using sorted_wrt_filter[OF idx, of "swing_high diff df"] by (simp del: upt_Suc)
qed

lemma get_buy_level_latest:
  assumes "sorted_wrt (<) (map fst df)" and "swing_high_candidates diff df \<noteq> []"
  shows "get_buy_level diff df
         = filter (\<lambda>l. high l = high (last (swing_high_candidates diff df)))
             (filter (\<lambda>x. \<not> (\<exists>y \<in> set (swing_high_candidates diff df). high x < high y \<and> date x < date y))
                (swing_high_candidates diff df))"
    and "last (swing_high_candidates diff df) \<in> set (get_buy_level diff df)"
proof -
  define cs where "cs = swing_high_candidates diff df"
  define S where "S = filter (\<lambda>x. \<not> (\<exists>y \<in> set cs. high x < high y \<and> date x < date y)) cs"
  have inc: "sorted_wrt (\<lambda>x y. date x < date y) cs"
    unfolding cs_def using assms(1) by (rule candidates_dates_increase)
  have ne: "cs \<noteq> []" using assms(2) by (simp add: cs_def)
  have dne: "df \<noteq> []" using assms(2) by (auto simp: swing_high_candidates_def)
  have dist: "distinct cs"
  proof -
    have "sorted_wrt (<) (map date cs)"
      using inc by (simp add: sorted_wrt_map)
    then have "distinct (map date cs)"
      using strict_sorted_iff by blast
    then show ?thesis by (simp add: distinct_map)
  qed
  have surv: "remove_all (non_virgin cs) cs = S"
    unfolding remove_all_filter[OF dist] S_def
    by (rule filter_cong) (auto simp: non_virgin_iff[OF inc])
  have last_before: "date x < date (last cs)" if "x \<in> set cs" "x \<noteq> last cs" for x
  proof -
    from that ne have "x \<in> set (butlast cs)"
      by (metis append_butlast_last_id in_set_conv_decomp last_in_set set_ConsD set_append Un_iff empty_iff list.set(1) list.simps(15) insert_iff)
    moreover have "sorted_wrt (\<lambda>x y. date x < date y) (butlast cs @ [last cs])"
      using inc ne by simp
    ultimately show ?thesis by (simp add: sorted_wrt_append)
  qed
  have last_in: "last cs \<in> set S"
  proof -
    have "\<not> date (last cs) < date y" if "y \<in> set cs" for y
      using last_before[OF that] by (cases "y = last cs") auto
    then show ?thesis using ne by (auto simp: S_def)
  qed
  have ge: "high (last cs) \<le> high x" if "x \<in> set S" for x
  proof (cases "x = last cs")
    case True then show ?thesis by simp
  next
    case False
    from that have xs: "x \<in> set cs" and nd: "\<not> (\<exists>y \<in> set cs. high x < high y \<and> date x < date y)"
      by (simp_all add: S_def)
    from last_before[OF xs False] nd ne show ?thesis by (metis last_in_set not_le_imp_less)
  qed
  have Sne: "S \<noteq> []" using last_in by auto
  have "Min (set (map high S)) = high (last cs)"
    using last_in ge by (intro Min_eqI) auto
  then have m: "hd (sort (map high S)) = high (last cs)"
    using Sne by (simp add: hd_sort_Min)
  have res: "get_buy_level diff df = filter (\<lambda>l. high l = high (last cs)) S"
    using dne Sne by (simp add: get_buy_level_def Let_def cs_def[symmetric] surv keep_lowest_def m)
  show "get_buy_level diff df
         = filter (\<lambda>l. high l = high (last (swing_high_candidates diff df)))
             (filter (\<lambda>x. \<not> (\<exists>y \<in> set (swing_high_candidates diff df). high x < high y \<and> date x < date y))
                (swing_high_candidates diff df))"
    using res by (simp add: S_def cs_def)
  show "last (swing_high_candidates diff df) \<in> set (get_buy_level diff df)"
    using res last_in by (simp add: cs_def)
qed

text \<open>
  C6 (as the code has it). The virgin-level filter discards a resistance candidate when a
  later (by timestamp) candidate has a strictly higher price, and what is returned after
  filtering is the lowest-priced survivor. So for a series with two valid resistance
  candidates at different prices, the earlier one is discarded when it is the lower one and
  kept when it is the higher one, and \<open>get_buy_level\<close> returns only the later candidate in
  both cases: the nearer one when it is the later of the two, the farther one when the
  nearer one came first.
\<close>

theorem get_buy_level_two_candidates:
  assumes "swing_high_candidates diff df = [a, b]"
      and "date a < date b" and "high a \<noteq> high b"
  shows "get_buy_level diff df = [b]
       \<and> (high a < high b \<longrightarrow> remove_all (non_virgin [a, b]) [a, b] = [b])
       \<and> (high b < high a \<longrightarrow> remove_all (non_virgin [a, b]) [a, b] = [a, b])"
proof -
  have ne: "df \<noteq> []"
    using assms(1) by (auto simp: swing_high_candidates_def)
  have ab: "a \<noteq> b" using assms(3) by auto
  show ?thesis
  proof (cases "high a < high b")
    case True
    then show ?thesis
      using ne assms ab
      by (simp add: get_buy_level_def Let_def remove_all_def keep_lowest_def)
  next
    case False
    with assms(3) have lt: "high b < high a" by simp
    then have "sort [high a, high b] = [high b, high a]" by simp
    then show ?thesis
      using ne assms ab lt False
      by (simp add: get_buy_level_def Let_def remove_all_def keep_lowest_def)
  qed
qed

theorem get_buy_level_two_candidates_witness:
  "swing_high_candidates 0 falling_highs = [\<lparr> date = 1, high = 7 \<rparr>, \<lparr> date = 3, high = 5 \<rparr>]
   \<and> get_buy_level 0 falling_highs = [\<lparr> date = 3, high = 5 \<rparr>]"
proof -
  have a: "swing_high_candidates 0 falling_highs = [\<lparr> date = 1, high = 7 \<rparr>, \<lparr> date = 3, high = 5 \<rparr>]"
    by code_simp
  show ?thesis
    using a get_buy_level_two_candidates [OF a] by simp
qed

text \<open>C6 as stated fails: with a swing high at 5 followed by a swing high at 7 and the
  price at 1, the candidate at distance 4 is discarded and the one at distance 6 is returned.\<close>

theorem get_buy_level_nearest_counterexample:
  "snd (last rising_highs) = 1
   \<and> swing_high_candidates 0 rising_highs = [\<lparr> date = 1, high = 5 \<rparr>, \<lparr> date = 3, high = 7 \<rparr>]
   \<and> get_buy_level 0 rising_highs = [\<lparr> date = 3, high = 7 \<rparr>]"
  by code_simp

end
